theory Spec2Isabelle
  imports Main "HOL-Library.AList"
begin

section \<open>Values, storage and the shared state\<close>

text \<open>
  A setting value is a Python \<open>bool\<close>, \<open>int\<close> or \<open>str\<close>: these are the types of
  \<open>DEFAULT_SETTINGS\<close> and of \<open>ALLOWED_SETTINGS\<close>, and the only ones the program writes
  to the settings table. Numbers with a fractional part (the \<open>float\<close> branch of
  \<open>_convert_dynamodb_types\<close>) can only come from writes made outside the program and are
  not part of the model.
\<close>

datatype sval = SBool bool | SInt int | SStr string

text \<open>\<open>type(value).__name__\<close> on a setting value.\<close>

fun type_name :: "sval \<Rightarrow> string" where
  "type_name (SBool _) = ''bool''"
| "type_name (SInt _) = ''int''"
| "type_name (SStr _) = ''str''"

text \<open>An item of the settings table, without its key \<open>setting_key\<close>.\<close>

record item =
  setting_value :: sval
  setting_type :: string

text \<open>Exceptions: a failed call to the storage service, and Python's \<open>TypeError\<close>.\<close>

datatype exn = StorageError | TypeError

record user =
  user_id :: string
  email :: string
  role :: string
  password :: string
  is_verified :: "bool option"
  is_locked :: "bool option"
  failed_login_attempts :: int
  locked_at :: "int option"

record attempt =
  attempt_ip :: string
  attempt_email :: string
  attempt_success :: bool
  attempt_time :: int

record token_record =
  token :: string
  token_user_id :: string
  created_at :: int
  expires_at :: int

text \<open>
  Everything the handlers read and write. \<open>settings_table\<close> is the persisted table, in
  scan order; \<open>table_up\<close> says whether the settings table can be reached;
  \<open>scan_page_limit\<close> bounds one page of a scan (a page holds at most one item more than
  this number). \<open>settings_cache\<close> and \<open>cache_initialized\<close> are the module globals
  \<open>_settings_cache\<close> and \<open>_cache_initialized\<close>.
\<close>

record world =
  table_up :: bool
  scan_page_limit :: nat
  settings_table :: "(string \<times> item) list"
  settings_cache :: "(string \<times> sval) list"
  cache_initialized :: bool
  users :: "user list"
  login_attempts :: "attempt list"
  refresh_tokens :: "token_record list"


subsection \<open>The settings table\<close>

definition get_item :: "string \<Rightarrow> world \<Rightarrow> exn + item option" where
  "get_item k w = (if table_up w then Inr (map_of (settings_table w) k) else Inl StorageError)"

definition put_item :: "string \<Rightarrow> item \<Rightarrow> world \<Rightarrow> exn + world" where
  "put_item k it w =
     (if table_up w then Inr (w\<lparr>settings_table := AList.update k it (settings_table w)\<rparr>)
      else Inl StorageError)"

text \<open>
  One page of a scan starting at position \<open>start\<close>: the items of the page, and the
  position to go on from (\<open>LastEvaluatedKey\<close>) when items remain after the page.
\<close>

definition scan :: "nat \<Rightarrow> world \<Rightarrow> exn + ((string \<times> item) list \<times> nat option)" where
  "scan start w =
     (if table_up w then
        (let stop = start + Suc (scan_page_limit w)
         in Inr (take (Suc (scan_page_limit w)) (drop start (settings_table w)),
                 if stop < length (settings_table w) then Some stop else None))
      else Inl StorageError)"

section \<open>utils/app\_settings.py\<close>

definition DEFAULT_SETTINGS :: "(string \<times> sval) list" where
  "DEFAULT_SETTINGS =
     [(''allow_public_signup'', SBool True),
      (''allow_adding_new_users'', SBool True),
      (''require_otp_on_registration'', SBool True),
      (''email_verification_required'', SBool True),
      (''default_public_role'', SStr ''customer''),
      (''min_password_length'', SInt 4),
      (''max_failed_login_attempts'', SInt 5),
      (''account_lockout_duration_minutes'', SInt 30),
      (''_version'', SStr ''1.0''),
      (''_initialized'', SBool True)]"

text \<open>
  \<open>_convert_dynamodb_types\<close>: a whole number comes back from the table as a \<open>Decimal\<close>
  and is turned into an \<open>int\<close> again; booleans and strings pass unchanged.
\<close>

fun convert_dynamodb_types :: "sval \<Rightarrow> sval" where
  "convert_dynamodb_types (SInt n) = SInt n"
| "convert_dynamodb_types v = v"

text \<open>The loop of \<open>initialize_settings\<close> over \<open>DEFAULT_SETTINGS.items()\<close>.\<close>

fun put_defaults :: "(string \<times> sval) list \<Rightarrow> world \<Rightarrow> exn + world" where
  "put_defaults [] w = Inr w"
| "put_defaults ((k, v) # rest) w =
     (case put_item k \<lparr>setting_value = v, setting_type = type_name v\<rparr> w of
        Inl e \<Rightarrow> Inl e
      | Inr w' \<Rightarrow> put_defaults rest w')"

definition initialize_settings :: "world \<Rightarrow> exn + world" where
  "initialize_settings w =
     (case get_item ''_initialized'' w of
        Inl e \<Rightarrow> Inl e
      | Inr (Some _) \<Rightarrow> Inr w
      | Inr None \<Rightarrow> put_defaults DEFAULT_SETTINGS w)"

text \<open>The pagination loop of \<open>load_settings\<close>: \<open>while 'LastEvaluatedKey' in response\<close>.\<close>

function scan_more :: "world \<Rightarrow> (string \<times> item) list \<Rightarrow> nat option
    \<Rightarrow> exn + (string \<times> item) list" where
  "scan_more w items None = Inr items"
| "scan_more w items (Some k) =
     (case scan k w of
        Inl e \<Rightarrow> Inl e
      | Inr (page, nxt) \<Rightarrow> scan_more w (items @ page) nxt)"
  by pat_completeness auto
termination
  by (relation "measure (\<lambda>(w, items, nxt).
        case nxt of None \<Rightarrow> 0 | Some k \<Rightarrow> Suc (length (settings_table w) - k))")
     (auto simp: scan_def Let_def split: if_splits)

text \<open>The loop that builds the cache from the scanned items.\<close>

fun build_cache :: "(string \<times> sval) list \<Rightarrow> (string \<times> item) list \<Rightarrow> (string \<times> sval) list" where
  "build_cache cache [] = cache"
| "build_cache cache ((k, it) # rest) =
     build_cache (AList.update k (convert_dynamodb_types (setting_value it)) cache) rest"

text \<open>
  \<open>load_settings\<close> returns the mapping it hands back together with the new state. When
  the scan fails, the globals are left as they were and a copy of \<open>DEFAULT_SETTINGS\<close> is
  returned.
\<close>

definition load_settings :: "world \<Rightarrow> (string \<times> sval) list \<times> world" where
  "load_settings w =
     (case (case scan 0 w of
              Inl e \<Rightarrow> Inl e
            | Inr (page, nxt) \<Rightarrow> scan_more w page nxt) of
        Inr items \<Rightarrow>
          (let cache = build_cache [] items
           in (cache, w\<lparr>settings_cache := cache, cache_initialized := True\<rparr>))
      | Inl e \<Rightarrow> (DEFAULT_SETTINGS, w))"

text \<open>
  \<open>get_setting(key, default)\<close>; \<open>None\<close> is Python's \<open>None\<close>, also for the argument
  \<open>default\<close> (here \<open>dflt\<close>) when the caller gives none.
\<close>

definition get_setting :: "string \<Rightarrow> sval option \<Rightarrow> world \<Rightarrow> sval option \<times> world" where
  "get_setting key dflt w =
     (let w1 = (if \<not> cache_initialized w then snd (load_settings w) else w);
          v = (case map_of (settings_cache w1) key of Some x \<Rightarrow> Some x | None \<Rightarrow> dflt);
          v' = (if v = None \<and> key \<in> fst ` set DEFAULT_SETTINGS
                then map_of DEFAULT_SETTINGS key else v)
      in (v', w1))"

definition get_all_settings :: "world \<Rightarrow> (string \<times> sval) list \<times> world" where
  "get_all_settings w =
     (let w1 = (if \<not> cache_initialized w then snd (load_settings w) else w)
      in (settings_cache w1, w1))"

definition update_setting :: "string \<Rightarrow> sval \<Rightarrow> world \<Rightarrow> exn + world" where
  "update_setting key v w =
     (case put_item key \<lparr>setting_value = v, setting_type = type_name v\<rparr> w of
        Inl e \<Rightarrow> Inl e
      | Inr w' \<Rightarrow> Inr (w'\<lparr>settings_cache := AList.update key v (settings_cache w')\<rparr>))"

text \<open>\<open>update_settings\<close> of the store: the keys are written one after the other.\<close>

fun update_settings_db :: "(string \<times> sval) list \<Rightarrow> world \<Rightarrow> exn + world" where
  "update_settings_db [] w = Inr w"
| "update_settings_db ((k, v) # rest) w =
     (case update_setting k v w of
        Inl e \<Rightarrow> Inl e
      | Inr w' \<Rightarrow> update_settings_db rest w')"


section \<open>Python strings and request values\<close>

text \<open>\<open>str(n)\<close> for an \<open>int\<close>, as f-strings render it.\<close>

function digits :: "nat \<Rightarrow> string" where
  "digits n = (if n < 10 then [''0123456789'' ! n]
               else digits (n div 10) @ [''0123456789'' ! (n mod 10)])"
  by pat_completeness auto
termination
  by (relation "measure id") auto

declare digits.simps [simp del]

definition str_int :: "int \<Rightarrow> string" where
  "str_int i = (if i < 0 then ''-'' @ digits (nat (- i)) else digits (nat i))"

text \<open>\<open>str(v)\<close> for a setting value.\<close>

fun str_sval :: "sval \<Rightarrow> string" where
  "str_sval (SBool b) = (if b then ''True'' else ''False'')"
| "str_sval (SInt n) = str_int n"
| "str_sval (SStr s) = s"


text \<open>\<open>k.startswith('_')\<close>.\<close>

fun startswith_underscore :: "string \<Rightarrow> bool" where
  "startswith_underscore [] = False"
| "startswith_underscore (c # _) = (c = CHR ''_'')"

text \<open>
  A value of a parsed JSON body. A number with a fraction or an exponent is a Python
  \<open>float\<close>; its digits play no part in what follows and are left out.
\<close>

datatype jvalue =
    JScalar sval
  | JNull
  | JFloat
  | JArray "jvalue list"
  | JObject "(string \<times> jvalue) list"





text \<open>
  The number a value stands for in a comparison or a subtraction: an \<open>int\<close> is itself,
  \<open>True\<close> is 1 and \<open>False\<close> is 0; a \<open>str\<close> has none (Python raises \<open>TypeError\<close>).
\<close>

fun num_of :: "sval \<Rightarrow> int option" where
  "num_of (SInt n) = Some n"
| "num_of (SBool b) = Some (if b then 1 else 0)"
| "num_of (SStr _) = None"



section \<open>utils/responses.py\<close>

record error_obj =
  code :: "string option"
  details :: "(string \<times> string) list option"

text \<open>
  The \<open>data\<close> of a response: nothing, the settings of \<open>GET /settings\<close>, the settings
  read back by \<open>PUT /settings\<close>, or the payload of a successful login (user, access
  token, refresh token, expiry).
\<close>

datatype rdata =
    DNone
  | DSettings "(string \<times> sval) list"
  | DUpdated "(string \<times> sval option) list"
  | DLogin user string string int

record resp_body =
  success :: bool
  status_code :: int
  message :: string
  data :: rdata
  error :: "error_obj option"
  meta :: "(string \<times> string) list"

record response =
  statusCode :: int
  headers :: "(string \<times> string) list"
  body :: resp_body

definition cors_headers :: "(string \<times> string) list" where
  "cors_headers =
     [(''Content-Type'', ''application/json''),
      (''Access-Control-Allow-Origin'', ''*''),
      (''Access-Control-Allow-Headers'', ''Content-Type,Authorization''),
      (''Access-Control-Allow-Methods'', ''GET,POST,PUT,DELETE,OPTIONS'')]"

definition success_response :: "rdata \<Rightarrow> string \<Rightarrow> int \<Rightarrow> response" where
  "success_response d msg sc =
     \<lparr>statusCode = sc, headers = cors_headers,
      body = \<lparr>success = True, status_code = sc, message = msg, data = d,
              error = None, meta = []\<rparr>\<rparr>"

text \<open>
  \<open>error_response\<close>: an empty \<open>error_code\<close> and an empty \<open>error_details\<close> count as
  absent, and an error object without entries is replaced by \<open>None\<close>.
\<close>

definition error_response ::
    "string \<Rightarrow> int \<Rightarrow> string option \<Rightarrow> (string \<times> string) list option \<Rightarrow> response" where
  "error_response msg sc error_code error_details =
     (let c = (case error_code of Some (x # xs) \<Rightarrow> Some (x # xs) | _ \<Rightarrow> None);
          d = (case error_details of Some (x # xs) \<Rightarrow> Some (x # xs) | _ \<Rightarrow> None)
      in \<lparr>statusCode = sc, headers = cors_headers,
          body = \<lparr>success = False, status_code = sc, message = msg, data = DNone,
                  error = (if c = None \<and> d = None then None
                           else Some \<lparr>code = c, details = d\<rparr>),
                  meta = []\<rparr>\<rparr>)"


section \<open>utils/schema\_validator.py and utils/schemas.py\<close>










section \<open>handlers/settings.py\<close>


text \<open>
  \<open>get_settings\<close>, entered once \<open>require_auth\<close> (not among the sources) has let the
  request through. No call in its \<open>try\<close> block raises, so the \<open>except\<close> branch is never
  taken.
\<close>

definition get_settings :: "world \<Rightarrow> response \<times> world" where
  "get_settings w =
     (let (settings, w1) = get_all_settings w;
          public_settings = filter (\<lambda>(k, v). \<not> startswith_underscore k) settings
      in (success_response (DSettings public_settings) ''Success'' 200, w1))"






section \<open>Collaborators of the login handler\<close>

text \<open>
  What the handler takes from modules that are not among the sources and from the clock:
  the password check, the two token generators, \<open>login_success_response\<close>, the two
  expiry times of \<open>config\<close>, and the time of the request in seconds
  (\<open>datetime.utcnow()\<close>).
\<close>

record env =
  verify_password :: "string \<Rightarrow> string \<Rightarrow> bool"
  generate_access_token :: "string \<Rightarrow> string \<Rightarrow> string \<Rightarrow> string"
  generate_refresh_token :: "string \<Rightarrow> string"
  login_success_response :: "user \<Rightarrow> string \<Rightarrow> string \<Rightarrow> int \<Rightarrow> response"
  ACCESS_TOKEN_EXPIRY :: int
  REFRESH_TOKEN_EXPIRY :: int
  now :: int

text \<open>
  The request after \<open>json.loads\<close> and \<open>validate_login_data\<close> (not among the sources)
  have accepted it: the two fields of the body, and the source address when the event
  carries one.
\<close>

record login_request =
  req_email :: string
  req_password :: string
  sourceIp :: "string option"

text \<open>\<open>str.lower()\<close> and \<open>str.strip()\<close> on ASCII text.\<close>

definition py_lower :: "string \<Rightarrow> string" where
  "py_lower s =
     map (\<lambda>c. case map_of (zip ''ABCDEFGHIJKLMNOPQRSTUVWXYZ'' ''abcdefghijklmnopqrstuvwxyz'') c of
               Some l \<Rightarrow> l
             | None \<Rightarrow> c) s"

definition is_space :: "char \<Rightarrow> bool" where
  "is_space c = ((of_char c :: nat) \<in> {9, 10, 11, 12, 13, 28, 29, 30, 31, 32})"

definition py_strip :: "string \<Rightarrow> string" where
  "py_strip s = rev (dropWhile is_space (rev (dropWhile is_space s)))"

text \<open>
  Modelled from the spec: \<open>UserDB.get_user_by_email\<close>, the user store's
  \<open>GetByEmail(email) -> User | absent\<close>.
\<close>

definition get_user_by_email :: "string \<Rightarrow> world \<Rightarrow> user option" where
  "get_user_by_email e w = find (\<lambda>u. email u = e) (users w)"

definition update_user :: "string \<Rightarrow> (user \<Rightarrow> user) \<Rightarrow> world \<Rightarrow> world" where
  "update_user uid f w = w\<lparr>users := map (\<lambda>u. if user_id u = uid then f u else u) (users w)\<rparr>"

text \<open>
  Modelled from the spec: \<open>UserDB.increment_failed_attempts\<close>, the user store's atomic
  \<open>IncrementFailedAttempts(userId) -> newCount\<close>. The handler calls it with the id of a
  stored user; for an id that is not stored the count starts at 1.
\<close>

definition increment_failed_attempts :: "string \<Rightarrow> world \<Rightarrow> int \<times> world" where
  "increment_failed_attempts uid w =
     ((case find (\<lambda>u. user_id u = uid) (users w) of
         Some u \<Rightarrow> failed_login_attempts u + 1
       | None \<Rightarrow> 1),
      update_user uid (\<lambda>u. u\<lparr>failed_login_attempts := failed_login_attempts u + 1\<rparr>) w)"

text \<open>Modelled from the spec: \<open>UserDB.reset_failed_attempts\<close>, \<open>ResetFailedAttempts(userId)\<close>.\<close>

definition reset_failed_attempts :: "string \<Rightarrow> world \<Rightarrow> world" where
  "reset_failed_attempts uid w = update_user uid (\<lambda>u. u\<lparr>failed_login_attempts := 0\<rparr>) w"

text \<open>
  Modelled from the spec: \<open>UserDB.lock_account\<close>, \<open>Lock(userId)\<close>: set
  \<open>is_locked=true\<close>, stamp \<open>locked_at=now\<close>.
\<close>

definition lock_account :: "env \<Rightarrow> string \<Rightarrow> world \<Rightarrow> world" where
  "lock_account en uid w =
     update_user uid (\<lambda>u. u\<lparr>is_locked := Some True, locked_at := Some (now en)\<rparr>) w"

text \<open>
  Modelled from the spec: \<open>UserDB.unlock_account\<close>, \<open>Unlock(userId)\<close>: back to unlocked
  with the counter reset to 0.
\<close>

definition unlock_account :: "string \<Rightarrow> world \<Rightarrow> world" where
  "unlock_account uid w =
     update_user uid (\<lambda>u. u\<lparr>is_locked := Some False, failed_login_attempts := 0\<rparr>) w"

text \<open>
  Modelled from the spec: \<open>UserDB.should_auto_unlock\<close>. If the configured duration is 0
  the lock is permanent and never auto-unlocks; if the duration is greater than 0 and
  \<open>now - locked_at >= duration\<close> the account is to be unlocked; otherwise not. The
  duration is in minutes and the times are in seconds. An account without a
  \<open>locked_at\<close> stamp is not unlocked.
\<close>

definition should_auto_unlock :: "env \<Rightarrow> user \<Rightarrow> int \<Rightarrow> bool" where
  "should_auto_unlock en u duration =
     (case locked_at u of
        None \<Rightarrow> False
      | Some t \<Rightarrow> duration > 0 \<and> now en - t \<ge> 60 * duration)"

text \<open>
  Modelled from the spec: \<open>LoginAttemptDB.record_attempt\<close>, the append-only
  \<open>RecordAttempt(ip, email, success)\<close>; a record holds the source IP, the email
  attempted, the success flag and the timestamp.
\<close>

definition record_attempt :: "env \<Rightarrow> string \<Rightarrow> string \<Rightarrow> bool \<Rightarrow> world \<Rightarrow> world" where
  "record_attempt en ip e ok w =
     w\<lparr>login_attempts := login_attempts w @
         [\<lparr>attempt_ip = ip, attempt_email = e, attempt_success = ok, attempt_time = now en\<rparr>]\<rparr>"

text \<open>Modelled from the spec: \<open>RefreshTokenDB.create_token\<close>, \<open>Create(tokenRecord)\<close>.\<close>

definition create_token :: "token_record \<Rightarrow> world \<Rightarrow> world" where
  "create_token t w = w\<lparr>refresh_tokens := refresh_tokens w @ [t]\<rparr>"

section \<open>handlers/login.py\<close>

text \<open>Truth value of what \<open>get_setting\<close> returns, as \<open>if x and ...\<close> reads it.\<close>

fun truthy :: "sval option \<Rightarrow> bool" where
  "truthy None = False"
| "truthy (Some (SBool b)) = b"
| "truthy (Some (SInt n)) = (n \<noteq> 0)"
| "truthy (Some (SStr s)) = (s \<noteq> [])"

text \<open>\<open>x == 0\<close>.\<close>

fun eq_zero :: "sval option \<Rightarrow> bool" where
  "eq_zero (Some (SInt n)) = (n = 0)"
| "eq_zero (Some (SBool b)) = (\<not> b)"
| "eq_zero _ = False"

text \<open>\<open>{x}\<close> in an f-string.\<close>

fun str_opt :: "sval option \<Rightarrow> string" where
  "str_opt None = ''None''"
| "str_opt (Some v) = str_sval v"

text \<open>The number of a setting in \<open>>=\<close> and \<open>-\<close>; without one, Python raises \<open>TypeError\<close>.\<close>

fun number :: "sval option \<Rightarrow> exn + int" where
  "number None = Inl TypeError"
| "number (Some v) = (case num_of v of Some n \<Rightarrow> Inr n | None \<Rightarrow> Inl TypeError)"

text \<open>Lines 79 to 141: the password check and what follows it.\<close>

definition credential_check :: "env \<Rightarrow> string \<Rightarrow> string \<Rightarrow> string \<Rightarrow> user
    \<Rightarrow> sval option \<Rightarrow> sval option \<Rightarrow> world \<Rightarrow> (exn + response) \<times> world" where
  "credential_check en ip_address e pw u max_failed_login_attempts
       account_lockout_duration_minutes w =
     (if \<not> verify_password en pw (password u) then
        (let (failed_attempts, w1) = increment_failed_attempts (user_id u) w
         in case number max_failed_login_attempts of
              Inl x \<Rightarrow> (Inl x, w1)
            | Inr m \<Rightarrow>
                if failed_attempts \<ge> m then
                  (let w2 = lock_account en (user_id u) w1
                   in if eq_zero account_lockout_duration_minutes
                      then (Inr (error_response
                                  (''Account permanently locked due to ''
                                   @ str_opt max_failed_login_attempts
                                   @ '' failed login attempts. Contact support.'')
                                  403 None None), w2)
                      else (Inr (error_response
                                  (''Account locked for ''
                                   @ str_opt account_lockout_duration_minutes
                                   @ '' minutes due to ''
                                   @ str_opt max_failed_login_attempts
                                   @ '' failed login attempts'')
                                  403 None None), w2))
                else
                  (let w2 = record_attempt en ip_address e False w1;
                       remaining_attempts = m - failed_attempts
                   in (Inr (error_response
                             (''Invalid email or password. '' @ str_int remaining_attempts
                              @ '' attempts remaining.'')
                             401 None None), w2)))
      else
        (let w1 = reset_failed_attempts (user_id u) w;
             w2 = record_attempt en ip_address e True w1;
             access_token = generate_access_token en (user_id u) (email u) (role u);
             refresh_token = generate_refresh_token en (user_id u);
             expires_at_timestamp = now en + REFRESH_TOKEN_EXPIRY en;
             w3 = create_token \<lparr>token = refresh_token, token_user_id = user_id u,
                                created_at = now en, expires_at = expires_at_timestamp\<rparr> w2
         in (Inr (login_success_response en u access_token refresh_token
                    (ACCESS_TOKEN_EXPIRY en)), w3)))"

text \<open>Lines 75 to 77: the verification check, then the password check.\<close>

definition verification_check :: "env \<Rightarrow> string \<Rightarrow> string \<Rightarrow> string \<Rightarrow> user
    \<Rightarrow> sval option \<Rightarrow> sval option \<Rightarrow> sval option \<Rightarrow> world \<Rightarrow> (exn + response) \<times> world" where
  "verification_check en ip_address e pw u max_failed_login_attempts
       account_lockout_duration_minutes email_verification_required w =
     (if truthy email_verification_required
         \<and> \<not> (case is_verified u of Some b \<Rightarrow> b | None \<Rightarrow> False)
      then (Inr (error_response ''Account is not verified. Please verify your email and phone.''
                   403 None None), w)
      else credential_check en ip_address e pw u max_failed_login_attempts
             account_lockout_duration_minutes w)"

text \<open>Lines 57 to 73: the lockout check with the auto-unlock, then the verification check.\<close>

definition lockout_check :: "env \<Rightarrow> string \<Rightarrow> string \<Rightarrow> string \<Rightarrow> user
    \<Rightarrow> sval option \<Rightarrow> sval option \<Rightarrow> sval option \<Rightarrow> world \<Rightarrow> (exn + response) \<times> world" where
  "lockout_check en ip_address e pw u max_failed_login_attempts
       account_lockout_duration_minutes email_verification_required w =
     (if (case is_locked u of Some b \<Rightarrow> b | None \<Rightarrow> False) then
        (case number account_lockout_duration_minutes of
           Inl x \<Rightarrow> (Inl x, w)
         | Inr duration \<Rightarrow>
             if should_auto_unlock en u duration then
               (let w1 = unlock_account (user_id u) w;
                    u' = u\<lparr>is_locked := Some False, failed_login_attempts := 0\<rparr>
                in verification_check en ip_address e pw u' max_failed_login_attempts
                     account_lockout_duration_minutes email_verification_required w1)
             else if eq_zero account_lockout_duration_minutes
             then (Inr (error_response ''Account is permanently locked. Contact support.''
                          403 None None), w)
             else (Inr (error_response
                          ''Account is locked due to too many failed login attempts. Try again later.''
                          403 None None), w))
      else verification_check en ip_address e pw u max_failed_login_attempts
             account_lockout_duration_minutes email_verification_required w)"

text \<open>
  Lines 38 to 141, the \<open>try\<close> block after validation: \<open>Inl\<close> is an exception that
  leaves the block.
\<close>

definition login_try :: "env \<Rightarrow> login_request \<Rightarrow> world \<Rightarrow> (exn + response) \<times> world" where
  "login_try en req w =
     (let e = py_strip (py_lower (req_email req));
          pw = req_password req;
          ip_address = (case sourceIp req of Some ip \<Rightarrow> ip | None \<Rightarrow> ''unknown'')
      in case get_user_by_email e w of
           None \<Rightarrow>
             (Inr (error_response ''Invalid email or password'' 401 None None),
              record_attempt en ip_address e False w)
         | Some u \<Rightarrow>
             (let (max_failed_login_attempts, w1) =
                    get_setting ''max_failed_login_attempts'' (Some (SInt 5)) w;
                  (account_lockout_duration_minutes, w2) =
                    get_setting ''account_lockout_duration_minutes'' (Some (SInt 30)) w1;
                  (email_verification_required, w3) =
                    get_setting ''email_verification_required'' (Some (SBool True)) w2
              in lockout_check en ip_address e pw u max_failed_login_attempts
                   account_lockout_duration_minutes email_verification_required w3))"

text \<open>\<open>login\<close>: an exception that leaves the \<open>try\<close> block becomes the 500 response.\<close>

definition login :: "env \<Rightarrow> login_request \<Rightarrow> world \<Rightarrow> response \<times> world" where
  "login en req w =
     (case login_try en req w of
        (Inr r, w') \<Rightarrow> (r, w')
      | (Inl x, w') \<Rightarrow> (error_response ''Login failed'' 500 None None, w'))"

section \<open>Well-formed states\<close>

text \<open>The user store has one account per \<open>user_id\<close>.\<close>

definition users_wf :: "world \<Rightarrow> bool" where
  "users_wf w = distinct (map user_id (users w))"

text \<open>The state once the cache has been asked for: loaded when it was not initialized.\<close>

definition with_cache :: "world \<Rightarrow> world" where
  "with_cache w = (if \<not> cache_initialized w then snd (load_settings w) else w)"

text \<open>The email and the source address as the handler computes them from the request.\<close>

definition email_of :: "login_request \<Rightarrow> string" where
  "email_of req = py_strip (py_lower (req_email req))"

definition ip_of :: "login_request \<Rightarrow> string" where
  "ip_of req = (case sourceIp req of Some ip \<Rightarrow> ip | None \<Rightarrow> ''unknown'')"

text \<open>The three settings as the login handler reads them, each with the handler's default.\<close>

definition read_max :: "world \<Rightarrow> sval option" where
  "read_max w = fst (get_setting ''max_failed_login_attempts'' (Some (SInt 5)) w)"

definition read_duration :: "world \<Rightarrow> sval option" where
  "read_duration w = fst (get_setting ''account_lockout_duration_minutes'' (Some (SInt 30)) w)"

definition read_verification :: "world \<Rightarrow> sval option" where
  "read_verification w = fst (get_setting ''email_verification_required'' (Some (SBool True)) w)"

text \<open>A run of login requests, one after the other, each with its own clock.\<close>

fun login_run :: "(env \<times> login_request) list \<Rightarrow> world \<Rightarrow> response list \<times> world" where
  "login_run [] w = ([], w)"
| "login_run ((en, req) # rest) w =
     (let (r, w1) = login en req w;
          (rs, w2) = login_run rest w1
      in (r # rs, w2))"

section \<open>The settings table of the spec\<close>




text \<open>The setting values of a request body, key by key.\<close>

fun scalars :: "(string \<times> jvalue) list \<Rightarrow> (string \<times> sval) list" where
  "scalars [] = []"
| "scalars ((k, JScalar x) # rest) = (k, x) # scalars rest"
| "scalars ((k, _) # rest) = scalars rest"

section \<open>Example states\<close>

text \<open>An empty, reachable settings table with a cold cache, and the same table once seeded.\<close>

definition fresh_world :: world where
  "fresh_world =
     \<lparr>table_up = True, scan_page_limit = 2, settings_table = [], settings_cache = [],
      cache_initialized = False, users = [], login_attempts = [], refresh_tokens = []\<rparr>"

definition seeded_world :: world where
  "seeded_world = fresh_world\<lparr>settings_table :=
      map (\<lambda>(k, v). (k, \<lparr>setting_value = v, setting_type = type_name v\<rparr>)) DEFAULT_SETTINGS\<rparr>"


definition outage_world :: world where
  "outage_world = seeded_world\<lparr>table_up := False\<rparr>"

text \<open>
  Collaborators for the examples: passwords are compared as they are, tokens are built
  from the user id, and the success response carries the user without the password.
\<close>

definition example_env :: env where
  "example_env =
     \<lparr>verify_password = (\<lambda>candidate stored. candidate = stored),
      generate_access_token = (\<lambda>uid e r. ''access-'' @ uid),
      generate_refresh_token = (\<lambda>uid. ''refresh-'' @ uid),
      login_success_response =
        (\<lambda>u a r x. success_response (DLogin (u\<lparr>password := []\<rparr>) a r x) ''Login successful'' 200),
      ACCESS_TOKEN_EXPIRY = 3600,
      REFRESH_TOKEN_EXPIRY = 604800,
      now = 100000\<rparr>"

text \<open>
  Four accounts: one verified and unlocked, one locked at time 99000, one not verified,
  and one with four failed attempts.
\<close>

definition alice :: user where
  "alice =
     \<lparr>user_id = ''u1'', email = ''alice@example.com'', role = ''customer'',
      password = ''correct horse'', is_verified = Some True, is_locked = Some False,
      failed_login_attempts = 0, locked_at = None\<rparr>"

definition bob :: user where
  "bob =
     \<lparr>user_id = ''u2'', email = ''bob@example.com'', role = ''staff'',
      password = ''battery staple'', is_verified = Some True, is_locked = Some True,
      failed_login_attempts = 5, locked_at = Some 99000\<rparr>"

definition carol :: user where
  "carol =
     \<lparr>user_id = ''u3'', email = ''carol@example.com'', role = ''customer'',
      password = ''swordfish'', is_verified = Some False, is_locked = Some False,
      failed_login_attempts = 0, locked_at = None\<rparr>"

definition dave :: user where
  "dave =
     \<lparr>user_id = ''u4'', email = ''dave@example.com'', role = ''admin'',
      password = ''hunter2'', is_verified = Some True, is_locked = None,
      failed_login_attempts = 4, locked_at = None\<rparr>"

definition login_world :: world where
  "login_world = seeded_world\<lparr>users := [alice, bob, carol, dave]\<rparr>"

text \<open>The same state with the lockout duration set to 0, and two later clocks.\<close>

definition permanent_world :: world where
  "permanent_world =
     login_world\<lparr>settings_table :=
       AList.update ''account_lockout_duration_minutes''
         \<lparr>setting_value = SInt 0, setting_type = ''int''\<rparr> (settings_table login_world)\<rparr>"

definition later_env :: env where
  "later_env = example_env\<lparr>now := 101000\<rparr>"

definition next_year_env :: env where
  "next_year_env = example_env\<lparr>now := 31636000\<rparr>"

definition request :: "string \<Rightarrow> string \<Rightarrow> login_request" where
  "request e pw = \<lparr>req_email = e, req_password = pw, sourceIp = Some ''203.0.113.7''\<rparr>"




section \<open>The settings store\<close>


lemma put_defaults_up:
  "table_up w \<Longrightarrow> put_defaults kvs w =
     Inr (w\<lparr>settings_table :=
        fold (\<lambda>(k, v). AList.update k \<lparr>setting_value = v, setting_type = type_name v\<rparr>) kvs
          (settings_table w)\<rparr>)"
  by (induction kvs arbitrary: w) (auto simp: put_item_def)

lemma put_defaults_down: "\<not> table_up w \<Longrightarrow> kvs \<noteq> [] \<Longrightarrow> put_defaults kvs w = Inl StorageError"
  by (cases kvs) (auto simp: put_item_def)

lemma scan_more_all:
  "table_up w \<Longrightarrow> (case nxt of None \<Rightarrow> rest = [] | Some k \<Rightarrow> rest = drop k (settings_table w)) \<Longrightarrow>
   scan_more w items nxt = Inr (items @ rest)"
proof (induction w items nxt arbitrary: rest rule: scan_more.induct)
  case (1 w items)
  then show ?case by simp
next
  case (2 w items k)
  let ?n = "Suc (scan_page_limit w)"
  let ?t = "settings_table w"
  have sc: "scan k w = Inr (take ?n (drop k ?t), if k + ?n < length ?t then Some (k + ?n) else None)"
    using "2.prems"(1) by (simp add: scan_def Let_def)
  have rest: "rest = drop k ?t" using "2.prems"(2) by simp
  show ?case
  proof (cases "k + ?n < length ?t")
    case True
    have "scan_more w (items @ take ?n (drop k ?t)) (Some (k + ?n)) =
            Inr ((items @ take ?n (drop k ?t)) @ drop (k + ?n) ?t)"
      using "2.IH"[OF sc[unfolded True if_True] refl "2.prems"(1)] sc True by simp
    moreover have "take ?n (drop k ?t) @ drop (k + ?n) ?t = drop k ?t"
      by (metis add.commute append_take_drop_id drop_drop)
    ultimately show ?thesis using sc True rest by simp
  next
    case False
    then have "take ?n (drop k ?t) = drop k ?t" by simp
    then show ?thesis using sc False rest by simp
  qed
qed

lemma load_items:
  "table_up w \<Longrightarrow>
   (case scan 0 w of Inl e \<Rightarrow> Inl e | Inr (page, nxt) \<Rightarrow> scan_more w page nxt) = Inr (settings_table w)"
proof -
  assume up: "table_up w"
  let ?n = "Suc (scan_page_limit w)"
  let ?t = "settings_table w"
  have sc: "scan 0 w = Inr (take ?n ?t, if ?n < length ?t then Some ?n else None)"
    using up by (simp add: scan_def Let_def)
  have "scan_more w (take ?n ?t) (if ?n < length ?t then Some ?n else None) = Inr (take ?n ?t @ drop ?n ?t)"
    by (rule scan_more_all[OF up]) simp
  then show ?thesis using sc by simp
qed


lemma load_settings_up:
  "table_up w \<Longrightarrow> snd (load_settings w) =
     w\<lparr>settings_cache := build_cache [] (settings_table w), cache_initialized := True\<rparr>"
  by (simp add: load_settings_def load_items Let_def)

lemma load_settings_down: "\<not> table_up w \<Longrightarrow> load_settings w = (DEFAULT_SETTINGS, w)"
  by (simp add: load_settings_def scan_def)


lemma map_of_fold_defaults:
  "distinct (map fst kvs) \<Longrightarrow>
   map_of (fold (\<lambda>(k, v). AList.update k \<lparr>setting_value = v, setting_type = type_name v\<rparr>) kvs t) k =
     (case map_of kvs k of
        Some v \<Rightarrow> Some \<lparr>setting_value = v, setting_type = type_name v\<rparr>
      | None \<Rightarrow> map_of t k)"
proof (induction kvs arbitrary: t)
  case Nil
  then show ?case by simp
next
  case (Cons p kvs)
  obtain k' v' where p: "p = (k', v')" by (cases p)
  from Cons.prems p have d: "distinct (map fst kvs)" and nk: "k' \<notin> fst ` set kvs" by auto
  from nk have "map_of kvs k' = None" by (simp add: map_of_eq_None_iff)
  then show ?case using Cons.IH[OF d] p
    by (auto simp: update_conv' split: option.splits)
qed

lemma distinct_DEFAULT_SETTINGS: "distinct (map fst DEFAULT_SETTINGS)"
  by (simp add: DEFAULT_SETTINGS_def)

lemma initialized_in_defaults: "map_of DEFAULT_SETTINGS ''_initialized'' = Some (SBool True)"
  by (simp add: DEFAULT_SETTINGS_def)

text \<open>
  Claim C9. \<open>initialize_settings\<close> is idempotent. With the table reachable: when the
  item \<open>_initialized\<close> is present the call returns without an exception and leaves the
  whole state as it was; when it is absent the call writes every entry of
  \<open>DEFAULT_SETTINGS\<close> with its type name, touches no other key and nothing but the
  table, and a second call after it changes nothing.
\<close>

theorem initialize_settings_idempotent:
  assumes up: "table_up w"
  shows "(map_of (settings_table w) ''_initialized'' \<noteq> None \<longrightarrow> initialize_settings w = Inr w) \<and>
         (map_of (settings_table w) ''_initialized'' = None \<longrightarrow>
            (\<exists>w'. initialize_settings w = Inr w' \<and>
                  (\<forall>k. map_of (settings_table w') k =
                        (case map_of DEFAULT_SETTINGS k of
                           Some v \<Rightarrow> Some \<lparr>setting_value = v, setting_type = type_name v\<rparr>
                         | None \<Rightarrow> map_of (settings_table w) k)) \<and>
                  w'\<lparr>settings_table := settings_table w\<rparr> = w \<and>
                  initialize_settings w' = Inr w'))"
proof (intro conjI impI)
  assume "map_of (settings_table w) ''_initialized'' \<noteq> None"
  then show "initialize_settings w = Inr w"
    using up by (auto simp: initialize_settings_def get_item_def)
next
  assume none: "map_of (settings_table w) ''_initialized'' = None"
  let ?t = "fold (\<lambda>(k, v). AList.update k \<lparr>setting_value = v, setting_type = type_name v\<rparr>)
              DEFAULT_SETTINGS (settings_table w)"
  let ?w = "w\<lparr>settings_table := ?t\<rparr>"
  have init: "initialize_settings w = Inr ?w"
    using up none by (simp add: initialize_settings_def get_item_def put_defaults_up)
  have look: "map_of ?t k =
                (case map_of DEFAULT_SETTINGS k of
                   Some v \<Rightarrow> Some \<lparr>setting_value = v, setting_type = type_name v\<rparr>
                 | None \<Rightarrow> map_of (settings_table w) k)" for k
    by (simp add: map_of_fold_defaults distinct_DEFAULT_SETTINGS)
  have again: "initialize_settings ?w = Inr ?w"
    using up by (simp add: initialize_settings_def get_item_def look initialized_in_defaults)
  show "\<exists>w'. initialize_settings w = Inr w' \<and>
             (\<forall>k. map_of (settings_table w') k =
                   (case map_of DEFAULT_SETTINGS k of
                      Some v \<Rightarrow> Some \<lparr>setting_value = v, setting_type = type_name v\<rparr>
                    | None \<Rightarrow> map_of (settings_table w) k)) \<and>
             w'\<lparr>settings_table := settings_table w\<rparr> = w \<and>
             initialize_settings w' = Inr w'"
    using init look again by (intro exI[of _ ?w]) simp
qed

theorem initialize_settings_idempotent_witness:
  "table_up fresh_world \<and> map_of (settings_table fresh_world) ''_initialized'' = None \<and>
   (\<exists>w'. initialize_settings fresh_world = Inr w' \<and>
         map_of (settings_table w') ''min_password_length'' =
           Some \<lparr>setting_value = SInt 4, setting_type = ''int''\<rparr> \<and>
         initialize_settings w' = Inr w') \<and>
   table_up seeded_world \<and> map_of (settings_table seeded_world) ''_initialized'' \<noteq> None \<and>
   initialize_settings seeded_world = Inr seeded_world"
proof -
  have a: "table_up fresh_world"
    and b: "map_of (settings_table fresh_world) ''_initialized'' = None"
    by (simp_all add: fresh_world_def)
  have c: "table_up seeded_world"
    and d: "map_of (settings_table seeded_world) ''_initialized'' \<noteq> None"
    by (simp_all add: fresh_world_def seeded_world_def DEFAULT_SETTINGS_def)
  have m: "map_of DEFAULT_SETTINGS ''min_password_length'' = Some (SInt 4)"
    by (simp add: DEFAULT_SETTINGS_def)
  from initialize_settings_idempotent[OF a] b obtain w' where
    w': "initialize_settings fresh_world = Inr w'"
        "\<forall>k. map_of (settings_table w') k =
              (case map_of DEFAULT_SETTINGS k of
                 Some v \<Rightarrow> Some \<lparr>setting_value = v, setting_type = type_name v\<rparr>
               | None \<Rightarrow> map_of (settings_table fresh_world) k)"
        "initialize_settings w' = Inr w'"
    by blast
  from w'(2) m have "map_of (settings_table w') ''min_password_length'' =
      Some \<lparr>setting_value = SInt 4, setting_type = ''int''\<rparr>"
    by simp
  with w'(1,3) have e: "\<exists>w'. initialize_settings fresh_world = Inr w' \<and>
         map_of (settings_table w') ''min_password_length'' =
           Some \<lparr>setting_value = SInt 4, setting_type = ''int''\<rparr> \<and>
         initialize_settings w' = Inr w'"
    by blast
  from initialize_settings_idempotent[OF c] d
  have f: "initialize_settings seeded_world = Inr seeded_world"
    by blast
  from a b c d e f show ?thesis by blast
qed



text \<open>
  Claim C10. In every state \<open>get_settings\<close> answers with the success response whose
  data are exactly the entries of \<open>get_all_settings\<close> with a key that does not start
  with an underscore; \<open>_version\<close> and \<open>_initialized\<close> are never among them.
\<close>

theorem get_settings_public_only:
  "\<exists>xs. fst (get_settings w) = success_response (DSettings xs) ''Success'' 200 \<and>
        set xs = {(k, v). (k, v) \<in> set (fst (get_all_settings w)) \<and> \<not> startswith_underscore k} \<and>
        map_of xs ''_version'' = None \<and> map_of xs ''_initialized'' = None"
proof -
  let ?xs = "filter (\<lambda>(k, v). \<not> startswith_underscore k) (fst (get_all_settings w))"
  have 1: "fst (get_settings w) = success_response (DSettings ?xs) ''Success'' 200"
    by (simp add: get_settings_def split_beta)
  have 2: "set ?xs = {(k, v). (k, v) \<in> set (fst (get_all_settings w)) \<and> \<not> startswith_underscore k}"
    by auto
  have 3: "map_of ?xs k = None" if "startswith_underscore k" for k
    using that by (auto simp: map_of_eq_None_iff)
  have "map_of ?xs ''_version'' = None" "map_of ?xs ''_initialized'' = None"
    by (rule 3, simp)+
  with 1 2 show ?thesis by blast
qed

lemma get_setting_outage:
  assumes "\<not> table_up w" "\<not> cache_initialized w" "settings_cache w = []"
  shows "get_setting key dflt w =
           ((case dflt of Some x \<Rightarrow> Some x | None \<Rightarrow> map_of DEFAULT_SETTINGS key), w)"
proof (cases "key \<in> fst ` set DEFAULT_SETTINGS")
  case True
  with assms show ?thesis
    by (simp add: get_setting_def load_settings_down Let_def split: option.splits)
next
  case False
  then have "map_of DEFAULT_SETTINGS key = None" by (simp add: map_of_eq_None_iff)
  with assms False show ?thesis
    by (simp add: get_setting_def load_settings_down Let_def split: option.splits)
qed

lemma get_all_settings_outage_empty:
  assumes "\<not> table_up w" "\<not> cache_initialized w" "settings_cache w = []"
  shows "get_all_settings w = ([], w)"
  using assms by (simp add: get_all_settings_def load_settings_down)

text \<open>
  Claim C7. With the settings table out of reach and a cold cache, \<open>load_settings\<close>
  hands back \<open>DEFAULT_SETTINGS\<close> and \<open>get_setting\<close> falls back to the hard-coded
  default, but \<open>get_all_settings\<close> drops what \<open>load_settings\<close> returned and gives the
  empty cache.
\<close>

theorem get_all_settings_outage:
  "fst (get_all_settings outage_world) = [] \<and>
   fst (load_settings outage_world) = DEFAULT_SETTINGS \<and>
   fst (get_setting ''max_failed_login_attempts'' None outage_world) = Some (SInt 5)"
  by (simp add: get_all_settings_def get_setting_def load_settings_down outage_world_def
      seeded_world_def fresh_world_def DEFAULT_SETTINGS_def)

section \<open>The login handler\<close>

lemma with_cache_idem [simp]: "with_cache (with_cache w) = with_cache w"
  by (cases "table_up w")
     (simp_all add: with_cache_def load_settings_up load_settings_down)

lemma with_cache_fields [simp]:
  "users (with_cache w) = users w"
  "login_attempts (with_cache w) = login_attempts w"
  "refresh_tokens (with_cache w) = refresh_tokens w"
  "settings_table (with_cache w) = settings_table w"
  "table_up (with_cache w) = table_up w"
  "scan_page_limit (with_cache w) = scan_page_limit w"
  by (cases "table_up w";
      simp add: with_cache_def load_settings_up load_settings_down)+

lemma snd_get_setting [simp]: "snd (get_setting k d w) = with_cache w"
  by (simp add: get_setting_def with_cache_def Let_def)

lemma fst_get_setting_with_cache [simp]:
  "fst (get_setting k d (with_cache w)) = fst (get_setting k d w)"
proof -
  have "cache_initialized (with_cache w) \<or> with_cache w = w"
    by (cases "table_up w") (simp_all add: with_cache_def load_settings_up load_settings_down)
  then show ?thesis
  proof
    assume "cache_initialized (with_cache w)"
    then show ?thesis by (simp add: get_setting_def with_cache_def Let_def)
  next
    assume "with_cache w = w"
    then show ?thesis by simp
  qed
qed


lemma get_setting_pair: "get_setting k d w = (fst (get_setting k d w), with_cache w)"
  by (metis prod.collapse snd_get_setting)

lemma login_unknown:
  "get_user_by_email (email_of req) w = None \<Longrightarrow>
   login en req w =
     (error_response ''Invalid email or password'' 401 None None,
      record_attempt en (ip_of req) (email_of req) False w)"
  by (simp add: login_def login_try_def email_of_def ip_of_def Let_def)

lemma login_try_known:
  "get_user_by_email (email_of req) w = Some u \<Longrightarrow>
   login_try en req w =
     lockout_check en (ip_of req) (email_of req) (req_password req) u
       (read_max w) (read_duration w) (read_verification w) (with_cache w)"
  by (simp add: login_try_def email_of_def ip_of_def Let_def split_beta
      read_max_def read_duration_def read_verification_def)

lemma find_map_same:
  "(\<And>x. P (g x) = P x) \<Longrightarrow> find P (map g xs) = map_option g (find P xs)"
  by (induction xs) auto

lemma get_user_by_email_update_user:
  "(\<And>x. email (f x) = email x) \<Longrightarrow>
   get_user_by_email e (update_user uid f w) =
     map_option (\<lambda>x. if user_id x = uid then f x else x) (get_user_by_email e w)"
  by (simp add: get_user_by_email_def update_user_def find_map_same)

lemma find_Some_in: "find P xs = Some u \<Longrightarrow> u \<in> set xs \<and> P u"
  by (induction xs) (auto split: if_splits)

lemma find_by_id:
  "distinct (map user_id xs) \<Longrightarrow> find P xs = Some u \<Longrightarrow>
   find (\<lambda>x. user_id x = user_id u) xs = Some u"
proof (induction xs)
  case Nil
  then show ?case by simp
next
  case (Cons x xs)
  show ?case
  proof (cases "P x")
    case True
    with Cons.prems show ?thesis by simp
  next
    case False
    with Cons.prems have f: "find P xs = Some u" by simp
    then have "u \<in> set xs" using find_Some_in by fastforce
    with Cons.prems have "user_id x \<noteq> user_id u" by auto
    with Cons.IH f Cons.prems show ?thesis by simp
  qed
qed

lemma increment_count:
  "users_wf w \<Longrightarrow> get_user_by_email e w = Some u \<Longrightarrow>
   fst (increment_failed_attempts (user_id u) w) = failed_login_attempts u + 1"
  by (simp add: increment_failed_attempts_def users_wf_def get_user_by_email_def find_by_id)

lemma get_user_other_fields [simp]:
  "get_user_by_email e (record_attempt en ip e' ok w) = get_user_by_email e w"
  "get_user_by_email e (create_token t w) = get_user_by_email e w"
  "get_user_by_email e (with_cache w) = get_user_by_email e w"
  by (simp_all add: get_user_by_email_def record_attempt_def create_token_def)


lemma not_locked_case: "is_locked u \<noteq> Some True \<Longrightarrow> (case is_locked u of Some b \<Rightarrow> b | None \<Rightarrow> False) = False"
  by (cases "is_locked u") auto

text \<open>
  Claim C5. A wrong password for a stored account that is not locked and is verified
  increments the failed-attempt counter; when the counter after the increment reaches
  the threshold \<open>m\<close> read from \<open>max_failed_login_attempts\<close> the account is locked and
  stamped with the time of the request; otherwise the answer is the 401 response that
  states \<open>m\<close> minus the counter after the increment as the attempts remaining.
\<close>

theorem wrong_password_increments:
  assumes wf: "users_wf w"
    and found: "get_user_by_email (email_of req) w = Some u"
    and unlocked: "is_locked u \<noteq> Some True"
    and verified: "is_verified u = Some True"
    and wrong: "\<not> verify_password en (req_password req) (password u)"
    and thr: "read_max w = Some (SInt m)"
  shows "\<exists>r w'. login en req w = (r, w') \<and>
           get_user_by_email (email_of req) w' =
             Some (if failed_login_attempts u + 1 \<ge> m
                   then u\<lparr>failed_login_attempts := failed_login_attempts u + 1,
                          is_locked := Some True, locked_at := Some (now en)\<rparr>
                   else u\<lparr>failed_login_attempts := failed_login_attempts u + 1\<rparr>) \<and>
           (failed_login_attempts u + 1 < m \<longrightarrow>
              r = error_response
                    (''Invalid email or password. ''
                     @ str_int (m - (failed_login_attempts u + 1)) @ '' attempts remaining.'')
                    401 None None)"
proof -
  let ?c = "failed_login_attempts u + 1"
  let ?w0 = "with_cache w"
  have found0: "get_user_by_email (email_of req) ?w0 = Some u" using found by simp
  have wf0: "users_wf ?w0" using wf by (simp add: users_wf_def)
  have cnt: "fst (increment_failed_attempts (user_id u) ?w0) = ?c"
    by (rule increment_count[OF wf0 found0])
  let ?w1 = "snd (increment_failed_attempts (user_id u) ?w0)"
  have u1: "get_user_by_email (email_of req) ?w1 = Some (u\<lparr>failed_login_attempts := ?c\<rparr>)"
    using found0 by (simp add: increment_failed_attempts_def get_user_by_email_update_user)
  have cred: "credential_check en (ip_of req) (email_of req) (req_password req) u
                (Some (SInt m)) (read_duration w) ?w0 =
              (if ?c \<ge> m then
                 (if eq_zero (read_duration w)
                  then (Inr (error_response
                               (''Account permanently locked due to '' @ str_int m
                                @ '' failed login attempts. Contact support.'') 403 None None),
                        lock_account en (user_id u) ?w1)
                  else (Inr (error_response
                               (''Account locked for '' @ str_opt (read_duration w)
                                @ '' minutes due to '' @ str_int m
                                @ '' failed login attempts'') 403 None None),
                        lock_account en (user_id u) ?w1))
               else (Inr (error_response
                            (''Invalid email or password. '' @ str_int (m - ?c)
                             @ '' attempts remaining.'') 401 None None),
                     record_attempt en (ip_of req) (email_of req) False ?w1))"
    using wrong cnt by (simp add: credential_check_def split_beta Let_def)
  have tr: "login_try en req w =
               credential_check en (ip_of req) (email_of req) (req_password req) u
                 (Some (SInt m)) (read_duration w) ?w0"
    using unlocked verified thr
    by (simp add: login_try_known[OF found] lockout_check_def verification_check_def
        not_locked_case)
  show ?thesis
  proof (cases "?c \<ge> m")
    case True
    have "get_user_by_email (email_of req) (lock_account en (user_id u) ?w1) =
            Some (u\<lparr>failed_login_attempts := ?c, is_locked := Some True,
                    locked_at := Some (now en)\<rparr>)"
      using u1 by (simp add: lock_account_def get_user_by_email_update_user)
    with True show ?thesis
      by (cases "eq_zero (read_duration w)") (simp_all add: login_def tr cred)
  next
    case False
    with u1 show ?thesis by (simp add: login_def tr cred)
  qed
qed


lemma locked_case: "is_locked u = Some True \<Longrightarrow> (case is_locked u of Some b \<Rightarrow> b | None \<Rightarrow> False) = True"
  by simp

lemma verified_case:
  "is_verified u \<noteq> Some True \<Longrightarrow> (case is_verified u of Some b \<Rightarrow> b | None \<Rightarrow> False) = False"
  by (cases "is_verified u") auto

lemma login_locked_denied:
  assumes found: "get_user_by_email (email_of req) w = Some u"
    and locked: "is_locked u = Some True"
    and dur: "number (read_duration w) = Inr d"
    and stay: "\<not> should_auto_unlock en u d"
  shows "login en req w =
           (error_response
              (if eq_zero (read_duration w)
               then ''Account is permanently locked. Contact support.''
               else ''Account is locked due to too many failed login attempts. Try again later.'')
              403 None None,
            with_cache w)"
  using locked dur stay
  by (simp add: login_def login_try_known[OF found] lockout_check_def)

lemma login_unverified_denied:
  assumes found: "get_user_by_email (email_of req) w = Some u"
    and unlocked: "is_locked u \<noteq> Some True"
    and req: "truthy (read_verification w)"
    and unv: "is_verified u \<noteq> Some True"
  shows "login en req w =
           (error_response ''Account is not verified. Please verify your email and phone.''
              403 None None,
            with_cache w)"
  using unlocked req unv
  by (simp add: login_def login_try_known[OF found] lockout_check_def verification_check_def
      not_locked_case verified_case)

lemma passes_verification:
  "\<not> truthy ev \<or> is_verified u = Some True \<Longrightarrow>
   (truthy ev \<and> \<not> (case is_verified u of Some b \<Rightarrow> b | None \<Rightarrow> False)) = False"
  by auto

lemma login_wrong_password_below:
  assumes wf: "users_wf w"
    and found: "get_user_by_email (email_of req) w = Some u"
    and unlocked: "is_locked u \<noteq> Some True"
    and pass: "\<not> truthy (read_verification w) \<or> is_verified u = Some True"
    and wrong: "\<not> verify_password en (req_password req) (password u)"
    and thr: "read_max w = Some (SInt m)"
    and below: "failed_login_attempts u + 1 < m"
  shows "login en req w =
           (error_response
              (''Invalid email or password. ''
               @ str_int (m - (failed_login_attempts u + 1)) @ '' attempts remaining.'')
              401 None None,
            record_attempt en (ip_of req) (email_of req) False
              (snd (increment_failed_attempts (user_id u) (with_cache w))))"
proof -
  have found0: "get_user_by_email (email_of req) (with_cache w) = Some u" using found by simp
  have wf0: "users_wf (with_cache w)" using wf by (simp add: users_wf_def)
  have cnt: "fst (increment_failed_attempts (user_id u) (with_cache w)) =
               failed_login_attempts u + 1"
    by (rule increment_count[OF wf0 found0])
  show ?thesis
    using unlocked wrong thr below cnt
    by (simp add: login_def login_try_known[OF found] lockout_check_def verification_check_def
        credential_check_def not_locked_case passes_verification[OF pass] split_beta Let_def)
qed


lemma attempts_fields [simp]:
  "login_attempts (update_user uid f w) = login_attempts w"
  "login_attempts (create_token t w) = login_attempts w"
  "login_attempts (record_attempt en ip e ok w) =
     login_attempts w @ [\<lparr>attempt_ip = ip, attempt_email = e, attempt_success = ok,
                          attempt_time = now en\<rparr>]"
  by (simp_all add: update_user_def create_token_def record_attempt_def)



text \<open>
  Claim C1, as amended. The response for an unknown email and the response for a wrong
  password on a stored, unlocked, verified account below the threshold have the same
  status 401, the same headers and the same body apart from the message: the first
  message is \<open>Invalid email or password\<close>, the second one continues it with the number
  of attempts remaining, so the two responses differ.
\<close>

theorem unknown_email_and_wrong_password_responses:
  assumes unknown: "get_user_by_email (email_of req1) w1 = None"
    and wf: "users_wf w2"
    and found: "get_user_by_email (email_of req2) w2 = Some u"
    and unlocked: "is_locked u \<noteq> Some True"
    and verified: "is_verified u = Some True"
    and wrong: "\<not> verify_password en2 (req_password req2) (password u)"
    and thr: "read_max w2 = Some (SInt m)"
    and below: "failed_login_attempts u + 1 < m"
  shows "statusCode (fst (login en1 req1 w1)) = 401 \<and>
         statusCode (fst (login en2 req2 w2)) = 401 \<and>
         message (body (fst (login en1 req1 w1))) = ''Invalid email or password'' \<and>
         message (body (fst (login en2 req2 w2))) =
           ''Invalid email or password'' @ ''. ''
           @ str_int (m - (failed_login_attempts u + 1)) @ '' attempts remaining.'' \<and>
         fst (login en2 req2 w2) =
           (fst (login en1 req1 w1))
             \<lparr>body := (body (fst (login en1 req1 w1)))
                \<lparr>message := message (body (fst (login en2 req2 w2)))\<rparr>\<rparr> \<and>
         fst (login en2 req2 w2) \<noteq> fst (login en1 req1 w1)"
proof -
  have r1: "fst (login en1 req1 w1) = error_response ''Invalid email or password'' 401 None None"
    by (simp add: login_unknown[OF unknown])
  have r2: "fst (login en2 req2 w2) =
              error_response
                (''Invalid email or password. ''
                 @ str_int (m - (failed_login_attempts u + 1)) @ '' attempts remaining.'')
                401 None None"
    using verified
    by (simp add: login_wrong_password_below[OF wf found unlocked _ wrong thr below])
  show ?thesis
    by (simp add: r1 r2 error_response_def)
qed

text \<open>
  Claim C4. For a stored account the checks run in the order lockout, verification,
  password. A locked account that is not due for auto-unlock is denied as locked
  whatever its verification state and the password. An account that passes the lockout
  check (unlocked, or auto-unlocked by this request) and is not verified while
  verification is required is denied as unverified whatever the password. A locked
  account whose lockout duration \<open>d > 0\<close> has elapsed is unlocked with its counter at 0
  by the same request, and with a correct password (and verification passed) the
  request gets the success response.
\<close>

theorem login_check_order:
  assumes found: "get_user_by_email (email_of req) w = Some u"
  shows "(is_locked u = Some True \<and> number (read_duration w) = Inr d \<and>
          \<not> should_auto_unlock en u d \<longrightarrow>
            fst (login en req w) =
              error_response
                (if eq_zero (read_duration w)
                 then ''Account is permanently locked. Contact support.''
                 else ''Account is locked due to too many failed login attempts. Try again later.'')
                403 None None) \<and>
         ((is_locked u \<noteq> Some True \<or>
           (number (read_duration w) = Inr d \<and> should_auto_unlock en u d)) \<and>
          truthy (read_verification w) \<and> is_verified u \<noteq> Some True \<longrightarrow>
            fst (login en req w) =
              error_response ''Account is not verified. Please verify your email and phone.''
                403 None None) \<and>
         (is_locked u = Some True \<and> read_duration w = Some (SInt d) \<and> 0 < d \<and>
          locked_at u = Some t \<and> now en - t \<ge> 60 * d \<and>
          (\<not> truthy (read_verification w) \<or> is_verified u = Some True) \<and>
          verify_password en (req_password req) (password u) \<longrightarrow>
            fst (login en req w) =
              login_success_response en (u\<lparr>is_locked := Some False, failed_login_attempts := 0\<rparr>)
                (generate_access_token en (user_id u) (email u) (role u))
                (generate_refresh_token en (user_id u)) (ACCESS_TOKEN_EXPIRY en) \<and>
            get_user_by_email (email_of req) (snd (login en req w)) =
              Some (u\<lparr>is_locked := Some False, failed_login_attempts := 0\<rparr>))"
proof -
  have a: "fst (login en req w) =
              error_response
                (if eq_zero (read_duration w)
                 then ''Account is permanently locked. Contact support.''
                 else ''Account is locked due to too many failed login attempts. Try again later.'')
                403 None None"
    if "is_locked u = Some True" "number (read_duration w) = Inr d"
      "\<not> should_auto_unlock en u d"
    using that by (simp add: login_locked_denied[OF found])
  have b: "fst (login en req w) =
          error_response ''Account is not verified. Please verify your email and phone.''
            403 None None"
    if lk: "is_locked u \<noteq> Some True \<or>
           (number (read_duration w) = Inr d \<and> should_auto_unlock en u d)"
      and rq: "truthy (read_verification w)" and unv: "is_verified u \<noteq> Some True"
  proof (cases "is_locked u = Some True")
    case False
    then show ?thesis by (simp add: login_unverified_denied[OF found _ rq unv])
  next
    case True
    with lk have "number (read_duration w) = Inr d" "should_auto_unlock en u d" by auto
    with True rq unv show ?thesis
      by (simp add: login_def login_try_known[OF found] lockout_check_def
          verification_check_def verified_case Let_def)
  qed
  have c: "fst (login en req w) =
              login_success_response en (u\<lparr>is_locked := Some False, failed_login_attempts := 0\<rparr>)
                (generate_access_token en (user_id u) (email u) (role u))
                (generate_refresh_token en (user_id u)) (ACCESS_TOKEN_EXPIRY en) \<and>
            get_user_by_email (email_of req) (snd (login en req w)) =
              Some (u\<lparr>is_locked := Some False, failed_login_attempts := 0\<rparr>)"
    if lk: "is_locked u = Some True" and dur: "read_duration w = Some (SInt d)"
      and pos: "0 < d" and at: "locked_at u = Some t" and el: "60 * d \<le> now en - t"
      and pass: "\<not> truthy (read_verification w) \<or> is_verified u = Some True"
      and right: "verify_password en (req_password req) (password u)"
  proof -
    let ?u = "u\<lparr>is_locked := Some False, failed_login_attempts := 0\<rparr>"
    have au: "should_auto_unlock en u d" using pos at el by (simp add: should_auto_unlock_def)
    have lg: "login en req w =
            (login_success_response en ?u
                (generate_access_token en (user_id u) (email u) (role u))
                (generate_refresh_token en (user_id u)) (ACCESS_TOKEN_EXPIRY en),
              create_token
                \<lparr>token = generate_refresh_token en (user_id u), token_user_id = user_id u,
                 created_at = now en, expires_at = now en + REFRESH_TOKEN_EXPIRY en\<rparr>
                (record_attempt en (ip_of req) (email_of req) True
                   (reset_failed_attempts (user_id u)
                      (unlock_account (user_id u) (with_cache w)))))"
      using lk dur au right
      by (simp add: login_def login_try_known[OF found] lockout_check_def
          verification_check_def credential_check_def passes_verification[OF pass] Let_def)
    have "get_user_by_email (email_of req) (snd (login en req w)) = Some ?u"
      using found
      by (simp add: lg reset_failed_attempts_def unlock_account_def
          get_user_by_email_update_user)
    with lg show ?thesis by simp
  qed
  show ?thesis
  proof (intro conjI impI)
    assume "is_locked u = Some True \<and> number (read_duration w) = Inr d \<and>
            \<not> should_auto_unlock en u d"
    then show "fst (login en req w) =
              error_response
                (if eq_zero (read_duration w)
                 then ''Account is permanently locked. Contact support.''
                 else ''Account is locked due to too many failed login attempts. Try again later.'')
                403 None None"
      using a by blast
  next
    assume "(is_locked u \<noteq> Some True \<or>
             (number (read_duration w) = Inr d \<and> should_auto_unlock en u d)) \<and>
            truthy (read_verification w) \<and> is_verified u \<noteq> Some True"
    then show "fst (login en req w) =
          error_response ''Account is not verified. Please verify your email and phone.''
            403 None None"
      using b by blast
  next
    assume h: "is_locked u = Some True \<and> read_duration w = Some (SInt d) \<and> 0 < d \<and>
          locked_at u = Some t \<and> now en - t \<ge> 60 * d \<and>
          (\<not> truthy (read_verification w) \<or> is_verified u = Some True) \<and>
          verify_password en (req_password req) (password u)"
    from h show "fst (login en req w) =
              login_success_response en (u\<lparr>is_locked := Some False, failed_login_attempts := 0\<rparr>)
                (generate_access_token en (user_id u) (email u) (role u))
                (generate_refresh_token en (user_id u)) (ACCESS_TOKEN_EXPIRY en)"
      using c by blast
    from h show "get_user_by_email (email_of req) (snd (login en req w)) =
              Some (u\<lparr>is_locked := Some False, failed_login_attempts := 0\<rparr>)"
      using c by blast
  qed
qed

lemma fst_get_setting_cases:
  "fst (get_setting k d w) =
     (let c = (if cache_initialized w \<or> \<not> table_up w then settings_cache w
               else build_cache [] (settings_table w));
          v = (case map_of c k of Some x \<Rightarrow> Some x | None \<Rightarrow> d)
      in if v = None \<and> k \<in> fst ` set DEFAULT_SETTINGS then map_of DEFAULT_SETTINGS k else v)"
  by (cases "table_up w")
     (auto simp: get_setting_def Let_def load_settings_up load_settings_down)

lemma get_setting_frame [simp]:
  "fst (get_setting k d (update_user uid f w)) = fst (get_setting k d w)"
  "fst (get_setting k d (record_attempt en ip e ok w)) = fst (get_setting k d w)"
  "fst (get_setting k d (create_token t w)) = fst (get_setting k d w)"
  by (simp_all add: fst_get_setting_cases update_user_def record_attempt_def create_token_def)

lemma snd_pair_if: "snd (if c then (a, x) else (b, y)) = (if c then x else y)"
  by simp

lemma credential_check_reads:
  "fst (get_setting k d (snd (credential_check en ip e pw u mx dur w))) = fst (get_setting k d w)"
  by (cases "number mx")
     (simp_all add: credential_check_def increment_failed_attempts_def lock_account_def
        reset_failed_attempts_def Let_def split_beta)

lemma verification_check_reads:
  "fst (get_setting k d (snd (verification_check en ip e pw u mx dur ev w))) =
     fst (get_setting k d w)"
  by (simp add: verification_check_def credential_check_reads)

lemma lockout_check_reads:
  "fst (get_setting k d (snd (lockout_check en ip e pw u mx dur ev w))) = fst (get_setting k d w)"
  by (cases "number dur")
     (simp_all add: lockout_check_def verification_check_reads unlock_account_def Let_def)

lemma snd_login: "snd (login en req w) = snd (login_try en req w)"
  by (simp add: login_def split: prod.splits sum.splits)

lemma login_preserves_reads:
  "fst (get_setting k d (snd (login en req w))) = fst (get_setting k d w)"
proof (cases "get_user_by_email (email_of req) w")
  case None
  then show ?thesis by (simp add: login_unknown)
next
  case (Some u)
  then show ?thesis by (simp add: snd_login login_try_known lockout_check_reads)
qed

lemma users_update_user_ids:
  "(\<And>x. user_id (f x) = user_id x) \<Longrightarrow>
   map user_id (users (update_user uid f w)) = map user_id (users w)"
  by (simp add: update_user_def o_def cong: if_cong)

lemma users_frame [simp]:
  "users (record_attempt en ip e ok w) = users w"
  "users (create_token t w) = users w"
  by (simp_all add: record_attempt_def create_token_def)

lemma credential_check_ids:
  "map user_id (users (snd (credential_check en ip e pw u mx dur w))) = map user_id (users w)"
  by (cases "number mx")
     (simp_all add: credential_check_def increment_failed_attempts_def lock_account_def
        reset_failed_attempts_def Let_def split_beta users_update_user_ids)

lemma verification_check_ids:
  "map user_id (users (snd (verification_check en ip e pw u mx dur ev w))) =
     map user_id (users w)"
  by (simp add: verification_check_def credential_check_ids)

lemma lockout_check_ids:
  "map user_id (users (snd (lockout_check en ip e pw u mx dur ev w))) = map user_id (users w)"
  by (cases "number dur")
     (simp_all add: lockout_check_def verification_check_ids unlock_account_def Let_def
        users_update_user_ids)

lemma login_preserves_ids:
  "map user_id (users (snd (login en req w))) = map user_id (users w)"
proof (cases "get_user_by_email (email_of req) w")
  case None
  then show ?thesis by (simp add: login_unknown)
next
  case (Some u)
  then show ?thesis by (simp add: snd_login login_try_known lockout_check_ids)
qed

lemma credential_check_other:
  assumes ne: "user_id u \<noteq> user_id u'" and found: "get_user_by_email e w = Some u"
  shows "get_user_by_email e (snd (credential_check en ip e' pw u' mx dur w)) = Some u"
  using ne found
  by (cases "number mx")
     (simp_all add: credential_check_def increment_failed_attempts_def lock_account_def
        reset_failed_attempts_def Let_def split_beta get_user_by_email_update_user)

lemma verification_check_other:
  assumes ne: "user_id u \<noteq> user_id u'" and found: "get_user_by_email e w = Some u"
  shows "get_user_by_email e (snd (verification_check en ip e' pw u' mx dur ev w)) = Some u"
  using found by (simp add: verification_check_def credential_check_other[OF ne])

lemma lockout_check_other:
  assumes ne: "user_id u \<noteq> user_id u'" and found: "get_user_by_email e w = Some u"
  shows "get_user_by_email e (snd (lockout_check en ip e' pw u' mx dur ev w)) = Some u"
proof -
  have "get_user_by_email e (unlock_account (user_id u') w) = Some u"
    using ne found by (simp add: unlock_account_def get_user_by_email_update_user)
  then show ?thesis
    using found ne
    by (cases "number dur")
       (simp_all add: lockout_check_def verification_check_other Let_def)
qed

lemma login_other_user:
  assumes wf: "users_wf w" and found: "get_user_by_email e w = Some u"
    and other: "email_of req \<noteq> e"
  shows "get_user_by_email e (snd (login en req w)) = Some u"
proof (cases "get_user_by_email (email_of req) w")
  case None
  then show ?thesis using found by (simp add: login_unknown)
next
  case (Some u')
  from found have u: "u \<in> set (users w)" "email u = e"
    using find_Some_in[of "\<lambda>x. email x = e" "users w" u] by (simp_all add: get_user_by_email_def)
  from Some have u': "u' \<in> set (users w)" "email u' = email_of req"
    using find_Some_in[of "\<lambda>x. email x = email_of req" "users w" u']
    by (simp_all add: get_user_by_email_def)
  from u u' other have "u \<noteq> u'" by auto
  with wf u u' have ne: "user_id u \<noteq> user_id u'"
    by (auto simp: users_wf_def distinct_map inj_on_def)
  have found0: "get_user_by_email e (with_cache w) = Some u" using found by simp
  show ?thesis
    by (simp add: snd_login login_try_known[OF Some] lockout_check_other[OF ne found0])
qed

text \<open>
  Claim C6. With \<open>account_lockout_duration_minutes\<close> read as 0, every login request
  for a locked account, at any time and with any password, gets the 403 response
  \<open>Account is permanently locked. Contact support.\<close> and changes nothing but the
  loading of the settings cache; and over any run of login requests, for whatever
  accounts and at whatever times, the account stays as it was and every request for it
  gets that response.
\<close>

theorem permanent_lock_never_unlocks:
  assumes wf: "users_wf w"
    and found: "get_user_by_email e w = Some u"
    and locked: "is_locked u = Some True"
    and perm: "read_duration w = Some (SInt 0)"
  shows "(\<forall>en req. email_of req = e \<longrightarrow>
            login en req w =
              (error_response ''Account is permanently locked. Contact support.'' 403 None None,
               with_cache w)) \<and>
         (\<forall>reqs. get_user_by_email e (snd (login_run reqs w)) = Some u \<and>
            (\<forall>i<length reqs. email_of (snd (reqs ! i)) = e \<longrightarrow>
               fst (login_run reqs w) ! i =
                 error_response ''Account is permanently locked. Contact support.''
                   403 None None))"
proof -
  have step: "login en req w' =
      (error_response ''Account is permanently locked. Contact support.'' 403 None None,
       with_cache w')"
    if "get_user_by_email e w' = Some u" "read_duration w' = Some (SInt 0)" "email_of req = e"
    for en req w'
  proof -
    from that have f: "get_user_by_email (email_of req) w' = Some u" by simp
    have n: "number (read_duration w') = Inr 0" using that by simp
    have s: "\<not> should_auto_unlock en u 0"
      by (simp add: should_auto_unlock_def split: option.splits)
    from login_locked_denied[OF f locked n s] that show ?thesis by simp
  qed
  have run: "get_user_by_email e (snd (login_run reqs w')) = Some u \<and>
            (\<forall>i<length reqs. email_of (snd (reqs ! i)) = e \<longrightarrow>
               fst (login_run reqs w') ! i =
                 error_response ''Account is permanently locked. Contact support.''
                   403 None None)"
    if "users_wf w'" "get_user_by_email e w' = Some u" "read_duration w' = Some (SInt 0)"
    for reqs w'
    using that
  proof (induction reqs arbitrary: w')
    case Nil
    then show ?case by simp
  next
    case (Cons p reqs)
    obtain en req where p: "p = (en, req)" by (cases p)
    let ?w1 = "snd (login en req w')"
    have wf1: "users_wf ?w1"
      using Cons.prems(1) by (simp add: users_wf_def login_preserves_ids)
    have rd1: "read_duration ?w1 = Some (SInt 0)"
      using Cons.prems(3) by (simp add: read_duration_def login_preserves_reads)
    have u1: "get_user_by_email e ?w1 = Some u"
    proof (cases "email_of req = e")
      case True
      then show ?thesis using step[OF Cons.prems(2,3)] Cons.prems(2) by simp
    next
      case False
      then show ?thesis by (rule login_other_user[OF Cons.prems(1,2)])
    qed
    note ih = Cons.IH[OF wf1 u1 rd1]
    have run_eq: "login_run (p # reqs) w' =
        (fst (login en req w') # fst (login_run reqs ?w1), snd (login_run reqs ?w1))"
      by (simp add: p split_beta)
    show ?case
    proof (intro conjI allI impI)
      show "get_user_by_email e (snd (login_run (p # reqs) w')) = Some u"
        using ih by (simp add: run_eq)
    next
      fix i
      assume i: "i < length (p # reqs)" and em: "email_of (snd ((p # reqs) ! i)) = e"
      show "fst (login_run (p # reqs) w') ! i =
              error_response ''Account is permanently locked. Contact support.'' 403 None None"
      proof (cases i)
        case 0
        with em p have "email_of req = e" by simp
        from step[OF Cons.prems(2,3) this] 0 show ?thesis by (simp add: run_eq)
      next
        case (Suc j)
        with i em ih show ?thesis by (simp add: run_eq)
      qed
    qed
  qed
  show ?thesis
    using step[OF found perm] run[OF wf found perm] by blast
qed

section \<open>The login handler on the example states\<close>

lemmas example_defs =
  login_world_def permanent_world_def seeded_world_def fresh_world_def DEFAULT_SETTINGS_def
  alice_def bob_def carol_def dave_def request_def example_env_def later_env_def
  next_year_env_def

lemma example_emails:
  "email_of (request ''nobody@example.com'' pw) = ''nobody@example.com''"
  "email_of (request '' Alice@Example.com '' pw) = ''alice@example.com''"
  "email_of (request ''alice@example.com'' pw) = ''alice@example.com''"
  "email_of (request ''bob@example.com'' pw) = ''bob@example.com''"
  "email_of (request ''carol@example.com'' pw) = ''carol@example.com''"
  "email_of (request ''dave@example.com'' pw) = ''dave@example.com''"
  "ip_of (request e pw) = ''203.0.113.7''"
  "req_password (request e pw) = pw"
  by (simp_all add: email_of_def ip_of_def request_def py_lower_def py_strip_def is_space_def)

lemma example_users:
  "users_wf login_world"
  "get_user_by_email ''nobody@example.com'' login_world = None"
  "get_user_by_email ''alice@example.com'' login_world = Some alice"
  "get_user_by_email ''bob@example.com'' login_world = Some bob"
  "get_user_by_email ''carol@example.com'' login_world = Some carol"
  "get_user_by_email ''dave@example.com'' login_world = Some dave"
  "users_wf permanent_world"
  "get_user_by_email ''alice@example.com'' permanent_world = Some alice"
  "get_user_by_email ''bob@example.com'' permanent_world = Some bob"
  by (simp_all add: users_wf_def get_user_by_email_def example_defs)

lemma seeded_table_up: "table_up login_world" "table_up permanent_world"
  by (simp_all add: example_defs)

lemma example_reads:
  "read_max login_world = Some (SInt 5)"
  "read_duration login_world = Some (SInt 30)"
  "read_verification login_world = Some (SBool True)"
  "read_max permanent_world = Some (SInt 5)"
  "read_duration permanent_world = Some (SInt 0)"
  "read_verification permanent_world = Some (SBool True)"
  by (simp_all add: read_max_def read_duration_def read_verification_def
      fst_get_setting_cases Let_def example_defs)

lemma example_digits: "str_int 4 = ''4''" "str_int 5 = ''5''"
  by (simp_all add: str_int_def digits.simps)

theorem wrong_password_increments_witness:
  "users_wf login_world \<and>
   get_user_by_email (email_of (request '' Alice@Example.com '' ''guess'')) login_world = Some alice \<and>
   is_locked alice \<noteq> Some True \<and> is_verified alice = Some True \<and>
   \<not> verify_password example_env (req_password (request '' Alice@Example.com '' ''guess''))
        (password alice) \<and>
   read_max login_world = Some (SInt 5) \<and>
   (\<exists>w'. login example_env (request '' Alice@Example.com '' ''guess'') login_world =
           (error_response ''Invalid email or password. 4 attempts remaining.'' 401 None None, w') \<and>
         get_user_by_email ''alice@example.com'' w' = Some (alice\<lparr>failed_login_attempts := 1\<rparr>)) \<and>
   get_user_by_email (email_of (request ''dave@example.com'' ''guess'')) login_world = Some dave \<and>
   is_locked dave \<noteq> Some True \<and> is_verified dave = Some True \<and>
   \<not> verify_password example_env (req_password (request ''dave@example.com'' ''guess''))
        (password dave) \<and>
   (\<exists>r w'. login example_env (request ''dave@example.com'' ''guess'') login_world = (r, w') \<and>
         get_user_by_email ''dave@example.com'' w' =
           Some (dave\<lparr>failed_login_attempts := 5, is_locked := Some True,
                      locked_at := Some 100000\<rparr>))"
proof -
  let ?ra = "request '' Alice@Example.com '' ''guess''"
  let ?rd = "request ''dave@example.com'' ''guess''"
  have a1: "get_user_by_email (email_of ?ra) login_world = Some alice"
    by (simp add: example_emails example_users)
  have a2: "is_locked alice \<noteq> Some True" and a3: "is_verified alice = Some True"
    and a4: "\<not> verify_password example_env (req_password ?ra) (password alice)"
    by (simp_all add: alice_def example_env_def request_def)
  have d1: "get_user_by_email (email_of ?rd) login_world = Some dave"
    by (simp add: example_emails example_users)
  have d2: "is_locked dave \<noteq> Some True" and d3: "is_verified dave = Some True"
    and d4: "\<not> verify_password example_env (req_password ?rd) (password dave)"
    by (simp_all add: dave_def example_env_def request_def)
  have fa: "failed_login_attempts alice = 0" and fd: "failed_login_attempts dave = 4"
    and nw: "now example_env = 100000"
    by (simp_all add: alice_def dave_def example_env_def)
  from wrong_password_increments[OF example_users(1) a1 a2 a3 a4 example_reads(1)]
  have ca: "\<exists>w'. login example_env ?ra login_world =
           (error_response ''Invalid email or password. 4 attempts remaining.'' 401 None None, w') \<and>
         get_user_by_email ''alice@example.com'' w' = Some (alice\<lparr>failed_login_attempts := 1\<rparr>)"
    by (simp add: fa example_emails example_digits)
  from wrong_password_increments[OF example_users(1) d1 d2 d3 d4 example_reads(1)]
  have cd: "\<exists>r w'. login example_env ?rd login_world = (r, w') \<and>
         get_user_by_email ''dave@example.com'' w' =
           Some (dave\<lparr>failed_login_attempts := 5, is_locked := Some True,
                      locked_at := Some 100000\<rparr>)"
    by (simp add: fd nw example_emails)
  from example_users(1) a1 a2 a3 a4 example_reads(1) ca d1 d2 d3 d4 cd
  show ?thesis by blast
qed


theorem unknown_email_and_wrong_password_responses_witness:
  "get_user_by_email (email_of (request ''nobody@example.com'' ''guess'')) login_world = None \<and>
   users_wf login_world \<and>
   get_user_by_email (email_of (request ''alice@example.com'' ''guess'')) login_world = Some alice \<and>
   is_locked alice \<noteq> Some True \<and> is_verified alice = Some True \<and>
   \<not> verify_password example_env (req_password (request ''alice@example.com'' ''guess''))
        (password alice) \<and>
   read_max login_world = Some (SInt 5) \<and> failed_login_attempts alice + 1 < 5 \<and>
   statusCode (fst (login example_env (request ''nobody@example.com'' ''guess'') login_world)) = 401 \<and>
   statusCode (fst (login example_env (request ''alice@example.com'' ''guess'') login_world)) = 401 \<and>
   message (body (fst (login example_env (request ''nobody@example.com'' ''guess'') login_world))) =
     ''Invalid email or password'' \<and>
   message (body (fst (login example_env (request ''alice@example.com'' ''guess'') login_world))) =
     ''Invalid email or password. 4 attempts remaining.''"
proof -
  let ?rn = "request ''nobody@example.com'' ''guess''"
  let ?ra = "request ''alice@example.com'' ''guess''"
  have n1: "get_user_by_email (email_of ?rn) login_world = None"
    by (simp add: example_emails example_users)
  have a1: "get_user_by_email (email_of ?ra) login_world = Some alice"
    by (simp add: example_emails example_users)
  have a2: "is_locked alice \<noteq> Some True" and a3: "is_verified alice = Some True"
    and a4: "\<not> verify_password example_env (req_password ?ra) (password alice)"
    and a5: "failed_login_attempts alice + 1 < 5"
    by (simp_all add: alice_def example_env_def request_def)
  have fa: "failed_login_attempts alice = 0" by (simp add: alice_def)
  from unknown_email_and_wrong_password_responses
         [OF n1 example_users(1) a1 a2 a3 a4 example_reads(1) a5, of example_env]
  have "statusCode (fst (login example_env ?rn login_world)) = 401 \<and>
        statusCode (fst (login example_env ?ra login_world)) = 401 \<and>
        message (body (fst (login example_env ?rn login_world))) = ''Invalid email or password'' \<and>
        message (body (fst (login example_env ?ra login_world))) =
          ''Invalid email or password. 4 attempts remaining.''"
    by (simp add: fa example_digits)
  with n1 example_users(1) a1 a2 a3 a4 example_reads(1) a5 show ?thesis by blast
qed

text \<open>
  The claim C1 as it is written fails: on the same state the response for an unknown
  email and the response for a wrong password on a stored account differ in their
  message.
\<close>

theorem enumeration_counterexample:
  "get_user_by_email (email_of (request ''nobody@example.com'' ''guess'')) login_world = None \<and>
   get_user_by_email (email_of (request ''alice@example.com'' ''guess'')) login_world = Some alice \<and>
   is_locked alice = Some False \<and> is_verified alice = Some True \<and>
   failed_login_attempts alice = 0 \<and> read_max login_world = Some (SInt 5) \<and>
   fst (login example_env (request ''nobody@example.com'' ''guess'') login_world) =
     error_response ''Invalid email or password'' 401 None None \<and>
   fst (login example_env (request ''alice@example.com'' ''guess'') login_world) =
     error_response ''Invalid email or password. 4 attempts remaining.'' 401 None None \<and>
   fst (login example_env (request ''nobody@example.com'' ''guess'') login_world) \<noteq>
   fst (login example_env (request ''alice@example.com'' ''guess'') login_world)"
proof -
  let ?rn = "request ''nobody@example.com'' ''guess''"
  let ?ra = "request ''alice@example.com'' ''guess''"
  have n1: "get_user_by_email (email_of ?rn) login_world = None"
    by (simp add: example_emails example_users)
  have a1: "get_user_by_email (email_of ?ra) login_world = Some alice"
    by (simp add: example_emails example_users)
  have a2: "is_locked alice = Some False" and a3: "is_verified alice = Some True"
    and a4: "\<not> verify_password example_env (req_password ?ra) (password alice)"
    and a5: "failed_login_attempts alice = 0"
    by (simp_all add: alice_def example_env_def request_def)
  have rn: "fst (login example_env ?rn login_world) =
              error_response ''Invalid email or password'' 401 None None"
    by (simp add: login_unknown[OF n1])
  have ra: "fst (login example_env ?ra login_world) =
              error_response ''Invalid email or password. 4 attempts remaining.'' 401 None None"
    using login_wrong_password_below[OF example_users(1) a1 _ _ a4 example_reads(1)] a2 a3 a5
    by (simp add: example_digits)
  have "fst (login example_env ?rn login_world) \<noteq> fst (login example_env ?ra login_world)"
    by (simp add: rn ra error_response_def)
  with n1 a1 a2 a3 a5 example_reads(1) rn ra show ?thesis by blast
qed


lemma example_facts:
  "is_locked alice \<noteq> Some True" "is_verified alice = Some True"
  "failed_login_attempts alice = 0" "password alice = ''correct horse''"
  "is_locked bob = Some True" "is_verified bob = Some True" "locked_at bob = Some 99000"
  "password bob = ''battery staple''"
  "is_locked carol \<noteq> Some True" "is_verified carol \<noteq> Some True"
  "password carol = ''swordfish''"
  "verify_password example_env a b = (a = b)" "now example_env = 100000"
  "verify_password later_env a b = (a = b)" "now later_env = 101000"
  "verify_password next_year_env a b = (a = b)" "now next_year_env = 31636000"
  by (simp_all add: example_defs)



theorem login_check_order_witness:
  "get_user_by_email (email_of (request ''bob@example.com'' ''battery staple'')) login_world =
     Some bob \<and>
   is_locked bob = Some True \<and> number (read_duration login_world) = Inr 30 \<and>
   \<not> should_auto_unlock example_env bob 30 \<and>
   fst (login example_env (request ''bob@example.com'' ''battery staple'') login_world) =
     error_response
       ''Account is locked due to too many failed login attempts. Try again later.''
       403 None None \<and>
   get_user_by_email (email_of (request ''carol@example.com'' ''swordfish'')) login_world =
     Some carol \<and>
   is_locked carol \<noteq> Some True \<and> truthy (read_verification login_world) \<and>
   is_verified carol \<noteq> Some True \<and>
   fst (login example_env (request ''carol@example.com'' ''swordfish'') login_world) =
     error_response ''Account is not verified. Please verify your email and phone.''
       403 None None \<and>
   read_duration login_world = Some (SInt 30) \<and> locked_at bob = Some 99000 \<and>
   now later_env - 99000 \<ge> 60 * 30 \<and> is_verified bob = Some True \<and>
   verify_password later_env (req_password (request ''bob@example.com'' ''battery staple''))
     (password bob) \<and>
   fst (login later_env (request ''bob@example.com'' ''battery staple'') login_world) =
     login_success_response later_env (bob\<lparr>is_locked := Some False, failed_login_attempts := 0\<rparr>)
       ''access-u2'' ''refresh-u2'' 3600 \<and>
   get_user_by_email ''bob@example.com''
     (snd (login later_env (request ''bob@example.com'' ''battery staple'') login_world)) =
     Some (bob\<lparr>is_locked := Some False, failed_login_attempts := 0\<rparr>)"
proof -
  let ?rb = "request ''bob@example.com'' ''battery staple''"
  let ?rc = "request ''carol@example.com'' ''swordfish''"
  have b1: "get_user_by_email (email_of ?rb) login_world = Some bob"
    by (simp add: example_emails example_users)
  have c1: "get_user_by_email (email_of ?rc) login_world = Some carol"
    by (simp add: example_emails example_users)
  have dur: "number (read_duration login_world) = Inr 30" by (simp add: example_reads)
  have stay: "\<not> should_auto_unlock example_env bob 30"
    by (simp add: should_auto_unlock_def example_facts)
  have tv: "truthy (read_verification login_world)" by (simp add: example_reads)
  have el: "now later_env - 99000 \<ge> 60 * 30" by (simp add: example_facts)
  have vp: "verify_password later_env (req_password ?rb) (password bob)"
    by (simp add: example_facts example_emails)
  have tok: "generate_access_token later_env (user_id bob) (email bob) (role bob) = ''access-u2''"
    "generate_refresh_token later_env (user_id bob) = ''refresh-u2''"
    "ACCESS_TOKEN_EXPIRY later_env = 3600"
    by (simp_all add: example_defs)
  have A: "fst (login example_env ?rb login_world) =
     error_response
       ''Account is locked due to too many failed login attempts. Try again later.''
       403 None None"
    using login_check_order[OF b1, of 30 example_env 0] dur stay
    by (simp add: example_facts example_reads)
  have B: "fst (login example_env ?rc login_world) =
     error_response ''Account is not verified. Please verify your email and phone.''
       403 None None"
    using login_check_order[OF c1, of 30 example_env 0] tv
    by (simp add: example_facts)
  have C: "fst (login later_env ?rb login_world) =
     login_success_response later_env (bob\<lparr>is_locked := Some False, failed_login_attempts := 0\<rparr>)
       ''access-u2'' ''refresh-u2'' 3600 \<and>
   get_user_by_email ''bob@example.com'' (snd (login later_env ?rb login_world)) =
     Some (bob\<lparr>is_locked := Some False, failed_login_attempts := 0\<rparr>)"
    using login_check_order[OF b1, of 30 later_env 99000] vp el
    by (simp add: example_facts example_reads example_emails tok)
  from b1 c1 dur stay tv el vp A B C example_facts example_reads show ?thesis by blast
qed

theorem permanent_lock_never_unlocks_witness:
  "users_wf permanent_world \<and>
   get_user_by_email ''bob@example.com'' permanent_world = Some bob \<and>
   is_locked bob = Some True \<and> read_duration permanent_world = Some (SInt 0) \<and>
   login next_year_env (request ''bob@example.com'' ''battery staple'') permanent_world =
     (error_response ''Account is permanently locked. Contact support.'' 403 None None,
      with_cache permanent_world) \<and>
   fst (login_run [(example_env, request ''bob@example.com'' ''battery staple''),
                   (later_env, request ''alice@example.com'' ''guess''),
                   (next_year_env, request ''bob@example.com'' ''battery staple'')]
          permanent_world) ! 2 =
     error_response ''Account is permanently locked. Contact support.'' 403 None None \<and>
   get_user_by_email ''bob@example.com''
     (snd (login_run [(example_env, request ''bob@example.com'' ''battery staple''),
                      (later_env, request ''alice@example.com'' ''guess''),
                      (next_year_env, request ''bob@example.com'' ''battery staple'')]
             permanent_world)) = Some bob"
proof -
  let ?rb = "request ''bob@example.com'' ''battery staple''"
  let ?run = "[(example_env, ?rb), (later_env, request ''alice@example.com'' ''guess''),
               (next_year_env, ?rb)]"
  note th = permanent_lock_never_unlocks
              [OF example_users(7) example_users(9) example_facts(5) example_reads(5)]
  from th have one: "login next_year_env ?rb permanent_world =
     (error_response ''Account is permanently locked. Contact support.'' 403 None None,
      with_cache permanent_world)"
    by (simp add: example_emails)
  from th have run: "get_user_by_email ''bob@example.com'' (snd (login_run ?run permanent_world)) =
        Some bob \<and>
      (\<forall>i<length ?run. email_of (snd (?run ! i)) = ''bob@example.com'' \<longrightarrow>
         fst (login_run ?run permanent_world) ! i =
           error_response ''Account is permanently locked. Contact support.'' 403 None None)"
    by blast
  then have "2 < length ?run \<longrightarrow> email_of (snd (?run ! 2)) = ''bob@example.com'' \<longrightarrow>
         fst (login_run ?run permanent_world) ! 2 =
           error_response ''Account is permanently locked. Contact support.'' 403 None None"
    by blast
  then have two: "fst (login_run ?run permanent_world) ! 2 =
           error_response ''Account is permanently locked. Contact support.'' 403 None None"
    by (simp add: example_emails)
  from example_users(7) example_users(9) example_facts(5) example_reads(5) one two run
  show ?thesis by blast
qed

section \<open>The settings update\<close>


















lemma scalars_mem: "(k, x) \<in> set (scalars kvs) \<longleftrightarrow> (k, JScalar x) \<in> set kvs"
  by (induction kvs rule: scalars.induct) auto

lemma scalars_keys_subset: "fst ` set (scalars kvs) \<subseteq> fst ` set kvs"
  by (induction kvs rule: scalars.induct) auto




lemma update_settings_db_down:
  "\<not> table_up w \<Longrightarrow> vs \<noteq> [] \<Longrightarrow> update_settings_db vs w = Inl StorageError"
  by (cases vs) (auto simp: update_setting_def put_item_def)

















end
